theory Spec2Isabelle
  imports Main "HOL-Library.Sublist"
begin

section \<open>Data model\<close>

text \<open>
  Documents carry the identifier the store gives them (\<open>_id\<close>); identifiers are
  natural numbers here.  Byte counts are JavaScript numbers holding integers and are
  modelled as \<open>int\<close>.  Strings are lists of characters.  Request bodies are taken as
  the route handlers see them, that is after the sanitizers of the validation chain
  (\<open>trim\<close>) have run.
\<close>

type_synonym objectId = nat

datatype fileType = Image | Pdf | Document | Other

text \<open>The User schema, as far as the storage ledger goes (\<open>models/User\<close>).\<close>

record user =
  user_id :: objectId
  storageUsed :: int
  storageLimit :: int

text \<open>The fields of a File document that the routes of \<open>routes/files.js\<close> set.\<close>

record fileDoc =
  file_id :: objectId
  file_name :: string
  originalName :: string
  file_type :: fileType
  mimeType :: string
  file_size :: int
  file_path :: string
  file_owner :: objectId
  file_folder :: "objectId option"

text \<open>One entry of \<open>req.files\<close>: a file that the upload middleware has already written.\<close>

record incoming =
  in_filename :: string
  in_originalname :: string
  in_mimetype :: string
  in_size :: int
  in_path :: string

text \<open>The Folder schema (\<open>folderSchema\<close>).\<close>

record folderDoc =
  folder_id :: objectId
  folder_name :: string
  description :: "string option"
  folder_owner :: objectId
  parentFolder :: "objectId option"
  folder_path :: string
  isFavorite :: bool
  color :: string

text \<open>A Note document, as far as folder deletion reads it.\<close>

record noteDoc =
  note_id :: objectId
  note_owner :: objectId
  note_folder :: "objectId option"

text \<open>
  The persistent state: the three collections, the set of paths that exist on disk, and
  the source of fresh identifiers.
\<close>

record store =
  folderColl :: "folderDoc list"
  fileColl :: "fileDoc list"
  noteColl :: "noteDoc list"
  disk :: "string list"
  nextId :: objectId

datatype error =
    NotFound
  | ParentNotFound
  | DuplicateName
  | QuotaExceeded
  | NotEmpty nat
  | ValidationFailed
  | NoFilesUploaded
  | ServerError

section \<open>Strings as JavaScript handles them\<close>

fun startsWith :: "string \<Rightarrow> string \<Rightarrow> bool" where
  "startsWith s [] = True"
| "startsWith [] (p # ps) = False"
| "startsWith (c # cs) (p # ps) = (c = p \<and> startsWith cs ps)"

fun includes_js :: "string \<Rightarrow> string \<Rightarrow> bool" where
  "includes_js [] sub = (sub = [])"
| "includes_js (c # cs) sub = (startsWith (c # cs) sub \<or> includes_js cs sub)"

section \<open>Quota ledger (\<open>userSchema.methods\<close> and the statements of \<open>routes/files.js\<close>)\<close>

definition hasEnoughStorage :: "user \<Rightarrow> int \<Rightarrow> bool" where
  "hasEnoughStorage u fileSize = (storageUsed u + fileSize \<le> storageLimit u)"

text \<open>\<open>req.user.storageUsed += totalSize\<close>\<close>

definition addStorage :: "user \<Rightarrow> int \<Rightarrow> user" where
  "addStorage u n = u\<lparr>storageUsed := storageUsed u + n\<rparr>"

text \<open>\<open>req.user.storageUsed = Math.max(0, req.user.storageUsed - file.size)\<close>\<close>

definition releaseStorage :: "user \<Rightarrow> int \<Rightarrow> user" where
  "releaseStorage u n = u\<lparr>storageUsed := max 0 (storageUsed u - n)\<rparr>"

section \<open>File routes\<close>

fun getFileType :: "string \<Rightarrow> fileType" where
  "getFileType m =
     (if startsWith m ''image/'' then Image
      else if m = ''application/pdf'' then Pdf
      else if includes_js m ''document'' \<or> includes_js m ''text'' then Document
      else Other)"

text \<open>\<open>if (fs.existsSync(p)) fs.unlinkSync(p)\<close> for every file of the batch.\<close>

definition unlinkIfExists :: "string \<Rightarrow> string list \<Rightarrow> string list" where
  "unlinkIfExists p d = (if p \<in> set d then removeAll p d else d)"

fun cleanupFiles :: "incoming list \<Rightarrow> string list \<Rightarrow> string list" where
  "cleanupFiles [] d = d"
| "cleanupFiles (f # fs) d = cleanupFiles fs (unlinkIfExists (in_path f) d)"

text \<open>\<open>totalSize\<close> as the \<open>forEach\<close> of the upload route accumulates it.\<close>

fun totalSize :: "incoming list \<Rightarrow> int \<Rightarrow> int" where
  "totalSize [] acc = acc"
| "totalSize (f # fs) acc = totalSize fs (acc + in_size f)"

definition newFile :: "objectId \<Rightarrow> user \<Rightarrow> objectId option \<Rightarrow> incoming \<Rightarrow> fileDoc" where
  "newFile i u folder f =
     \<lparr> file_id = i, file_name = in_filename f, originalName = in_originalname f,
       file_type = getFileType (in_mimetype f), mimeType = in_mimetype f,
       file_size = in_size f, file_path = in_path f, file_owner = user_id u,
       file_folder = folder \<rparr>"

text \<open>The loop \<open>for (const file of req.files)\<close>: one saved document per input.\<close>

fun processFiles :: "user \<Rightarrow> objectId option \<Rightarrow> incoming list \<Rightarrow> fileDoc list \<Rightarrow> store
    \<Rightarrow> fileDoc list \<times> store" where
  "processFiles u folder [] uploaded s = (uploaded, s)"
| "processFiles u folder (f # fs) uploaded s =
     (let d = newFile (nextId s) u folder f
      in processFiles u folder fs (uploaded @ [d])
           (s\<lparr>fileColl := fileColl s @ [d], nextId := Suc (nextId s)\<rparr>))"

text \<open>\<open>POST /upload\<close>\<close>

definition uploadFiles :: "user \<Rightarrow> incoming list \<Rightarrow> objectId option \<Rightarrow> store
    \<Rightarrow> (error + fileDoc list) \<times> user \<times> store" where
  "uploadFiles u reqFiles folder s =
     (if reqFiles = [] then (Inl NoFilesUploaded, u, s)
      else
        let total = totalSize reqFiles 0 in
        if \<not> hasEnoughStorage u total
        then (Inl QuotaExceeded, u, s\<lparr>disk := cleanupFiles reqFiles (disk s)\<rparr>)
        else
          let (uploaded, s') = processFiles u folder reqFiles [] s
          in (Inr uploaded, addStorage u total, s'))"

text \<open>\<open>File.findOne({_id, owner})\<close>\<close>

definition findFile :: "objectId \<Rightarrow> objectId \<Rightarrow> fileDoc list \<Rightarrow> fileDoc option" where
  "findFile i uid fs = find (\<lambda>f. file_id f = i \<and> file_owner f = uid) fs"

text \<open>\<open>DELETE /:id\<close>\<close>

definition deleteFile :: "user \<Rightarrow> objectId \<Rightarrow> store \<Rightarrow> (error + unit) \<times> user \<times> store" where
  "deleteFile u i s =
     (case findFile i (user_id u) (fileColl s) of
        None \<Rightarrow> (Inl NotFound, u, s)
      | Some f \<Rightarrow>
          (Inr (), releaseStorage u (file_size f),
           s\<lparr>disk := unlinkIfExists (file_path f) (disk s),
             fileColl := filter (\<lambda>g. file_id g \<noteq> file_id f) (fileColl s)\<rparr>))"

text \<open>
  \<open>POST /:id/duplicate\<close>.  The names of the copy come from the clock, a random number
  and the path library; they are inputs here.  \<open>fs.copyFileSync\<close> throws when the
  source is missing, which the handler turns into a server error.
\<close>

definition duplicateFile :: "user \<Rightarrow> objectId \<Rightarrow> string \<Rightarrow> string \<Rightarrow> string \<Rightarrow> store
    \<Rightarrow> (error + fileDoc) \<times> user \<times> store" where
  "duplicateFile u i duplicateName newFileName newFilePath s =
     (case findFile i (user_id u) (fileColl s) of
        None \<Rightarrow> (Inl NotFound, u, s)
      | Some orig \<Rightarrow>
          if \<not> hasEnoughStorage u (file_size orig) then (Inl QuotaExceeded, u, s)
          else if file_path orig \<notin> set (disk s) then (Inl ServerError, u, s)
          else
            let d = \<lparr> file_id = nextId s, file_name = newFileName,
                      originalName = duplicateName, file_type = file_type orig,
                      mimeType = mimeType orig, file_size = file_size orig,
                      file_path = newFilePath, file_owner = user_id u,
                      file_folder = file_folder orig \<rparr>
            in (Inr d, addStorage u (file_size orig),
                s\<lparr>disk := (if newFilePath \<in> set (disk s) then disk s
                             else disk s @ [newFilePath]),
                  fileColl := fileColl s @ [d], nextId := Suc (nextId s)\<rparr>))"

section \<open>More string operations\<close>

text \<open>\<open>String.prototype.split\<close> on a one-character separator: never the empty list.\<close>

fun split_js :: "char \<Rightarrow> string \<Rightarrow> string list" where
  "split_js sep [] = [[]]"
| "split_js sep (c # cs) =
     (if c = sep then [] # split_js sep cs
      else (c # hd (split_js sep cs)) # tl (split_js sep cs))"

text \<open>\<open>Array.prototype.join\<close>\<close>

fun join_js :: "string \<Rightarrow> string list \<Rightarrow> string" where
  "join_js sep [] = []"
| "join_js sep [x] = x"
| "join_js sep (x # y # ys) = x @ sep @ join_js sep (y # ys)"

text \<open>
  \<open>String.prototype.replace\<close> with a string pattern and a string replacement: the first
  occurrence of the pattern is replaced, and in the replacement \<open>$$\<close> stands for a
  dollar sign, \<open>$&\<close> for the matched text, dollar-backtick for the text preceding the
  match and dollar-apostrophe for the text following it.  A string pattern has no capture
  groups, so every other use of the dollar sign stands for itself.
\<close>

fun getSubstitution :: "string \<Rightarrow> string \<Rightarrow> string \<Rightarrow> string \<Rightarrow> string" where
  "getSubstitution matched preceding following [] = []"
| "getSubstitution matched preceding following [c] = [c]"
| "getSubstitution matched preceding following (c # d # r) =
     (if c = CHR ''$'' \<and> d = CHR ''$'' then CHR ''$'' # getSubstitution matched preceding following r
      else if c = CHR ''$'' \<and> d = CHR ''&'' then matched @ getSubstitution matched preceding following r
      else if c = CHR ''$'' \<and> d = CHR 0x60 then preceding @ getSubstitution matched preceding following r
      else if c = CHR ''$'' \<and> d = CHR 0x27 then following @ getSubstitution matched preceding following r
      else c # getSubstitution matched preceding following (d # r))"

fun splitAtFirst :: "string \<Rightarrow> string \<Rightarrow> string \<Rightarrow> (string \<times> string) option" where
  "splitAtFirst pat preceding [] = (if pat = [] then Some (preceding, []) else None)"
| "splitAtFirst pat preceding (c # cs) =
     (if startsWith (c # cs) pat then Some (preceding, drop (length pat) (c # cs))
      else splitAtFirst pat (preceding @ [c]) cs)"

definition replace_js :: "string \<Rightarrow> string \<Rightarrow> string \<Rightarrow> string" where
  "replace_js str pat repl =
     (case splitAtFirst pat [] str of
        None \<Rightarrow> str
      | Some (preceding, following) \<Rightarrow> preceding @ getSubstitution pat preceding following repl @ following)"

text \<open>Number to string, for the non-negative integers a loop counter takes.\<close>

definition digitChar :: "nat \<Rightarrow> char" where
  "digitChar d = char_of (48 + d)"

fun toString :: "nat \<Rightarrow> string" where
  "toString n = (if n < 10 then [digitChar n] else toString (n div 10) @ [digitChar (n mod 10)])"

declare toString.simps [simp del]

section \<open>The query \<open>path: { $regex: `^${oldPath}/` }\<close>\<close>

text \<open>
  The old path is pasted into a regular expression without escaping.  The model reads
  the part of the pattern language that needs no more than this: a character that is
  not a metacharacter matches itself, and a parenthesis opens or closes a group, which
  matches what its content matches.  Unbalanced parentheses are a pattern that does not
  compile, and the query throws.  A path with any other metacharacter is outside the
  model (\<open>PatternNotModelled\<close>).  A pattern that compiles is, with the anchor in front,
  the test that a string starts with the \<open>Pattern\<close> text.
\<close>

definition otherMeta :: "char list" where
  "otherMeta = [CHR 0x5C, CHR ''^'', CHR ''$'', CHR ''.'', CHR ''|'', CHR ''?'', CHR ''*'',
                CHR ''+'', CHR ''['', CHR '']'', CHR ''{'', CHR ''}'']"

datatype compiled = Pattern string | PatternError | PatternNotModelled

fun stripGroups :: "nat \<Rightarrow> string \<Rightarrow> string option" where
  "stripGroups depth [] = (if depth = 0 then Some [] else None)"
| "stripGroups depth (c # cs) =
     (if c = CHR ''('' then stripGroups (Suc depth) cs
      else if c = CHR '')'' then (if depth = 0 then None else stripGroups (depth - 1) cs)
      else map_option ((#) c) (stripGroups depth cs))"

definition compilePrefixRegex :: "string \<Rightarrow> compiled" where
  "compilePrefixRegex oldPath =
     (if \<exists>c \<in> set oldPath. c \<in> set otherMeta then PatternNotModelled
      else case stripGroups 0 (oldPath @ ''/'') of
             None \<Rightarrow> PatternError
           | Some lit \<Rightarrow> Pattern lit)"

section \<open>Folder tree (\<open>routes/folders.js\<close> and \<open>folderSchema.methods\<close>)\<close>

text \<open>\<open>Folder.findOne({_id, owner})\<close> and \<open>Folder.findById\<close>\<close>

definition findFolder :: "objectId \<Rightarrow> objectId \<Rightarrow> folderDoc list \<Rightarrow> folderDoc option" where
  "findFolder i uid fs = find (\<lambda>f. folder_id f = i \<and> folder_owner f = uid) fs"

definition findById :: "objectId \<Rightarrow> folderDoc list \<Rightarrow> folderDoc option" where
  "findById i fs = find (\<lambda>f. folder_id f = i) fs"

text \<open>
  \<open>doc.save()\<close> on a document read from the collection: it replaces the stored
  document with its \<open>_id\<close>.  A new document is appended to the collection.
\<close>

definition saveFolder :: "folderDoc \<Rightarrow> folderDoc list \<Rightarrow> folderDoc list" where
  "saveFolder f fs = map (\<lambda>g. if folder_id g = folder_id f then f else g) fs"

text \<open>
  \<open>getFullPath\<close> follows \<open>parentFolder\<close> upwards.  The recursion is bounded by fuel:
  \<open>None\<close> is running out of it.  A parent that is not in the collection makes the call
  on \<open>null\<close> throw.
\<close>

fun getFullPath :: "nat \<Rightarrow> folderDoc list \<Rightarrow> folderDoc \<Rightarrow> (error + string) option" where
  "getFullPath 0 fs this = None"
| "getFullPath (Suc n) fs this =
     (case parentFolder this of
        None \<Rightarrow> Some (Inr (folder_name this))
      | Some p \<Rightarrow>
          (case findById p fs of
             None \<Rightarrow> Some (Inl ServerError)
           | Some parent \<Rightarrow>
               (case getFullPath n fs parent of
                  None \<Rightarrow> None
                | Some (Inl e) \<Rightarrow> Some (Inl e)
                | Some (Inr parentPath) \<Rightarrow> Some (Inr (parentPath @ ''/'' @ folder_name this)))))"

text \<open>The two validators of the create and update routes.\<close>

definition nameValid :: "string \<Rightarrow> bool" where
  "nameValid n = (1 \<le> length n \<and> length n \<le> 255)"

definition descriptionValid :: "string option \<Rightarrow> bool" where
  "descriptionValid d = (case d of None \<Rightarrow> True | Some t \<Rightarrow> length t \<le> 500)"

text \<open>\<open>color || '#3B82F6'\<close>\<close>

definition colorOrDefault :: "string option \<Rightarrow> string" where
  "colorOrDefault c = (case c of None \<Rightarrow> ''#3B82F6'' | Some t \<Rightarrow> if t = [] then ''#3B82F6'' else t)"

text \<open>\<open>POST /\<close> (create folder)\<close>

definition createFolder :: "user \<Rightarrow> string \<Rightarrow> string option \<Rightarrow> objectId option \<Rightarrow> string option
    \<Rightarrow> store \<Rightarrow> (error + folderDoc) \<times> store" where
  "createFolder u name descr parent col s =
     (if \<not> (nameValid name \<and> descriptionValid descr) then (Inl ValidationFailed, s)
      else
        case find (\<lambda>f. folder_name f = name \<and> folder_owner f = user_id u \<and> parentFolder f = parent)
               (folderColl s) of
          Some existing \<Rightarrow> (Inl DuplicateName, s)
        | None \<Rightarrow>
            (case (case parent of
                     None \<Rightarrow> Inr name
                   | Some p \<Rightarrow>
                       (case findFolder p (user_id u) (folderColl s) of
                          None \<Rightarrow> Inl ParentNotFound
                        | Some par \<Rightarrow> Inr (folder_path par @ ''/'' @ name))) of
               Inl e \<Rightarrow> (Inl e, s)
             | Inr path \<Rightarrow>
                 let folder = \<lparr> folder_id = nextId s, folder_name = name, description = descr,
                                 folder_owner = user_id u, parentFolder = parent,
                                 folder_path = path, isFavorite = False,
                                 color = colorOrDefault col \<rparr>
                 in (Inr folder,
                     s\<lparr>folderColl := folderColl s @ [folder], nextId := Suc (nextId s)\<rparr>)))"

text \<open>
  \<open>PUT /:id\<close> (update folder).  The loop over the folders that the pattern query
  returned: each gets the first occurrence of the old path replaced, and is saved.
\<close>

fun saveSubfolders :: "string \<Rightarrow> string \<Rightarrow> folderDoc list \<Rightarrow> folderDoc list \<Rightarrow> folderDoc list" where
  "saveSubfolders oldPath newPath [] fs = fs"
| "saveSubfolders oldPath newPath (subfolder # rest) fs =
     saveSubfolders oldPath newPath rest
       (saveFolder (subfolder\<lparr>folder_path := replace_js (folder_path subfolder) oldPath newPath\<rparr>) fs)"

text \<open>A request field that is present and not the empty string.\<close>

definition truthy :: "string option \<Rightarrow> bool" where
  "truthy x = (case x of None \<Rightarrow> False | Some t \<Rightarrow> t \<noteq> [])"

text \<open>The block "Update folder fields".\<close>

definition updateFields :: "string option \<Rightarrow> string option \<Rightarrow> string option \<Rightarrow> bool option
    \<Rightarrow> folderDoc \<Rightarrow> folderDoc" where
  "updateFields name descr col fav folder =
     folder\<lparr> folder_name := (if truthy name then the name else folder_name folder),
             description := (case descr of None \<Rightarrow> description folder | Some d \<Rightarrow> Some d),
             color := (if truthy col then the col else color folder),
             isFavorite := (case fav of None \<Rightarrow> isFavorite folder | Some b \<Rightarrow> b) \<rparr>"

text \<open>
  The result is \<open>None\<close> where the old path is outside the modelled part of the pattern
  language.
\<close>

definition updateFolder :: "user \<Rightarrow> objectId \<Rightarrow> string option \<Rightarrow> string option \<Rightarrow> string option
    \<Rightarrow> bool option \<Rightarrow> store \<Rightarrow> ((error + folderDoc) \<times> store) option" where
  "updateFolder u i name descr col fav s =
     (if \<not> ((case name of None \<Rightarrow> True | Some n \<Rightarrow> nameValid n) \<and> descriptionValid descr)
      then Some (Inl ValidationFailed, s)
      else
        case findFolder i (user_id u) (folderColl s) of
          None \<Rightarrow> Some (Inl NotFound, s)
        | Some folder \<Rightarrow>
            if truthy name \<and> the name \<noteq> folder_name folder then
              (case find (\<lambda>f. folder_name f = the name \<and> folder_owner f = user_id u \<and>
                              parentFolder f = parentFolder folder \<and> folder_id f \<noteq> folder_id folder)
                      (folderColl s) of
                 Some existing \<Rightarrow> Some (Inl DuplicateName, s)
               | None \<Rightarrow>
                   let oldPath = folder_path folder;
                       pathParts = split_js CHR ''/'' oldPath;
                       newPath = join_js ''/'' (pathParts[length pathParts - 1 := the name])
                   in (case compilePrefixRegex oldPath of
                         PatternNotModelled \<Rightarrow> None
                       | PatternError \<Rightarrow> Some (Inl ServerError, s)
                       | Pattern lit \<Rightarrow>
                           let subfolders = filter (\<lambda>f. folder_owner f = user_id u \<and>
                                                        startsWith (folder_path f) lit) (folderColl s);
                               fs1 = saveSubfolders oldPath newPath subfolders (folderColl s);
                               folder' = updateFields name descr col fav (folder\<lparr>folder_path := newPath\<rparr>)
                           in Some (Inr folder', s\<lparr>folderColl := saveFolder folder' fs1\<rparr>)))
            else
              let folder' = updateFields name descr col fav folder
              in Some (Inr folder', s\<lparr>folderColl := saveFolder folder' (folderColl s)\<rparr>))"

text \<open>
  \<open>deleteFolder\<close>: the subfolders are read first, each is deleted recursively, then the
  files and notes of the folder and the folder itself.  The recursion is bounded by
  fuel; \<open>None\<close> is running out of it.
\<close>

fun deleteFolder :: "nat \<Rightarrow> objectId \<Rightarrow> objectId \<Rightarrow> store \<Rightarrow> store option"
  and deleteSubfolders :: "nat \<Rightarrow> folderDoc list \<Rightarrow> objectId \<Rightarrow> store \<Rightarrow> store option" where
  "deleteFolder 0 folderId userId s = None"
| "deleteFolder (Suc n) folderId userId s =
     (case deleteSubfolders n
             (filter (\<lambda>f. parentFolder f = Some folderId \<and> folder_owner f = userId) (folderColl s))
             userId s of
        None \<Rightarrow> None
      | Some s' \<Rightarrow>
          Some (s'\<lparr> fileColl := filter (\<lambda>f. \<not> (file_folder f = Some folderId \<and> file_owner f = userId))
                                  (fileColl s'),
                    noteColl := filter (\<lambda>n. \<not> (note_folder n = Some folderId \<and> note_owner n = userId))
                                  (noteColl s'),
                    folderColl := filter (\<lambda>f. folder_id f \<noteq> folderId) (folderColl s') \<rparr>))"
| "deleteSubfolders n [] userId s = Some s"
| "deleteSubfolders n (subfolder # rest) userId s =
     (case deleteFolder n (folder_id subfolder) userId s of
        None \<Rightarrow> None
      | Some s' \<Rightarrow> deleteSubfolders n rest userId s')"

text \<open>The three \<open>countDocuments\<close> queries of \<open>DELETE /:id\<close> and their sum.\<close>

definition totalItems :: "objectId \<Rightarrow> objectId \<Rightarrow> store \<Rightarrow> nat" where
  "totalItems folderId userId s =
     length (filter (\<lambda>f. parentFolder f = Some folderId \<and> folder_owner f = userId) (folderColl s))
   + length (filter (\<lambda>f. file_folder f = Some folderId \<and> file_owner f = userId) (fileColl s))
   + length (filter (\<lambda>n. note_folder n = Some folderId \<and> note_owner n = userId) (noteColl s))"

text \<open>\<open>DELETE /:id\<close> (delete folder); \<open>force\<close> is \<open>req.query.force === 'true'\<close>.\<close>

definition deleteFolderRoute :: "nat \<Rightarrow> user \<Rightarrow> objectId \<Rightarrow> bool \<Rightarrow> store
    \<Rightarrow> ((error + unit) \<times> user \<times> store) option" where
  "deleteFolderRoute fuel u i force s =
     (case findFolder i (user_id u) (folderColl s) of
        None \<Rightarrow> Some (Inl NotFound, u, s)
      | Some folder \<Rightarrow>
          if totalItems (folder_id folder) (user_id u) s > 0 \<and> \<not> force
          then Some (Inl (NotEmpty (totalItems (folder_id folder) (user_id u) s)), u, s)
          else (case deleteFolder fuel (folder_id folder) (user_id u) s of
                  None \<Rightarrow> None
                | Some s' \<Rightarrow> Some (Inr (), u, s')))"

text \<open>\<open>POST /:id/duplicate\<close> (duplicate folder): the names the loop tries.\<close>

definition copyName :: "string \<Rightarrow> nat \<Rightarrow> string" where
  "copyName base counter = base @ '' (Copy '' @ toString counter @ '')''"

text \<open>
  The loop ends because the numbered names are pairwise different and the collection is
  finite; \<open>firstFree\<close> is the first number from \<open>c\<close> on whose name is not taken.
\<close>

definition digitVal :: "string \<Rightarrow> nat" where
  "digitVal ds = foldl (\<lambda>acc c. 10 * acc + (of_char c - 48)) 0 ds"

definition firstFree :: "string list \<Rightarrow> string \<Rightarrow> nat \<Rightarrow> nat" where
  "firstFree taken base c = (LEAST j. c \<le> j \<and> copyName base j \<notin> set taken)"

lemma digitVal_toString: "digitVal (toString n) = n"
proof (induction n rule: toString.induct)
  case (1 n)
  show ?case
  proof (cases "n < 10")
    case True
    then show ?thesis by (subst toString.simps) (simp add: digitVal_def digitChar_def)
  next
    case False
    then have "digitVal (toString (n div 10)) = n div 10" using 1 by simp
    moreover have "of_char (digitChar (n mod 10)) - 48 = n mod 10"
      by (simp add: digitChar_def)
    ultimately show ?thesis using False
      by (subst toString.simps) (simp add: digitVal_def)
  qed
qed

lemma toString_inj: "toString m = toString n \<Longrightarrow> m = n"
  by (metis digitVal_toString)

lemma copyName_inj: "copyName base j = copyName base k \<Longrightarrow> j = k"
  by (simp add: copyName_def toString_inj)

lemma free_copyName_exists: "\<exists>j\<ge>c. copyName base j \<notin> set taken"
proof (rule ccontr)
  assume "\<not> ?thesis"
  then have sub: "copyName base ` {c..} \<subseteq> set taken" by auto
  have "inj_on (copyName base) {c..}" by (auto simp: inj_on_def dest: copyName_inj)
  then have "infinite (copyName base ` {c..})"
    using finite_imageD infinite_Ici by blast
  then show False using sub finite_subset by blast
qed

function nextName :: "string list \<Rightarrow> string \<Rightarrow> string \<Rightarrow> nat \<Rightarrow> string" where
  "nextName taken base duplicateName counter =
     (if duplicateName \<in> set taken
      then nextName taken base (copyName base counter) (Suc counter)
      else duplicateName)"
  by pat_completeness auto
termination
proof (relation "measure (\<lambda>(taken, base, dn, c).
          if dn \<in> set taken then Suc (firstFree taken base c - c) else 0)", goal_cases)
  case 1
  then show ?case by simp
next
  case (2 taken base dn c)
  show ?case
  proof (cases "copyName base c \<in> set taken")
    case False
    with 2 show ?thesis by simp
  next
    case True
    have ex: "\<exists>j. Suc c \<le> j \<and> copyName base j \<notin> set taken"
      using free_copyName_exists[of "Suc c" base taken] by blast
    have eq: "(c \<le> j \<and> copyName base j \<notin> set taken) = (Suc c \<le> j \<and> copyName base j \<notin> set taken)" for j
      using True by (cases "j = c") auto
    have ff: "firstFree taken base c = firstFree taken base (Suc c)"
      unfolding firstFree_def by (simp only: eq)
    have "Suc c \<le> firstFree taken base (Suc c)"
      unfolding firstFree_def using LeastI_ex[OF ex] by blast
    with 2 True ff show ?thesis by simp
  qed
qed

declare nextName.simps [simp del]

text \<open>
  The names that the query \<open>Folder.findOne({name, owner, parentFolder})\<close> of the loop
  finds taken: those of the owner's folders under the given parent.
\<close>

definition siblingNames :: "objectId \<Rightarrow> objectId option \<Rightarrow> store \<Rightarrow> string list" where
  "siblingNames userId parent s =
     map folder_name (filter (\<lambda>f. folder_owner f = userId \<and> parentFolder f = parent) (folderColl s))"

text \<open>
  The validators of \<open>folderSchema\<close> that \<open>save()\<close> runs on a new document: \<open>name\<close> is
  required and has at most 255 characters, \<open>description\<close> at most 500, and \<open>path\<close> is
  required.  A document that fails them is not stored; \<open>save()\<close> throws.
\<close>

definition schemaValid :: "folderDoc \<Rightarrow> bool" where
  "schemaValid f =
     (nameValid (folder_name f) \<and> descriptionValid (description f) \<and> folder_path f \<noteq> [])"

text \<open>
  The route itself checks nothing about the name it builds, so the schema's validators
  decide on \<open>save()\<close>; the handler turns their exception into a server error and
  nothing is stored.  (The stored names are as the schema's \<open>trim\<close> setter left them,
  and the setter leaves a name built from such a name as it is.)
\<close>

definition duplicateFolder :: "user \<Rightarrow> objectId \<Rightarrow> store \<Rightarrow> (error + folderDoc) \<times> store" where
  "duplicateFolder u i s =
     (case findFolder i (user_id u) (folderColl s) of
        None \<Rightarrow> (Inl NotFound, s)
      | Some originalFolder \<Rightarrow>
          let taken = siblingNames (user_id u) (parentFolder originalFolder) s;
              duplicateName = nextName taken (folder_name originalFolder)
                                (folder_name originalFolder @ '' (Copy)'') 1;
              duplicate = \<lparr> folder_id = nextId s, folder_name = duplicateName,
                            description = description originalFolder,
                            folder_owner = user_id u,
                            parentFolder = parentFolder originalFolder,
                            folder_path =
                              (if parentFolder originalFolder \<noteq> None
                               then join_js ''/'' (butlast (split_js CHR ''/'' (folder_path originalFolder)))
                                      @ ''/'' @ duplicateName
                               else duplicateName),
                            isFavorite = False,
                            color = color originalFolder \<rparr>
          in if \<not> schemaValid duplicate then (Inl ServerError, s)
             else (Inr duplicate,
                   s\<lparr>folderColl := folderColl s @ [duplicate], nextId := Suc (nextId s)\<rparr>))"

section \<open>The specification's own wording, for comparison with the code\<close>

text \<open>
  The classifier as the specification words it: \<open>image/*\<close> is image, \<open>application/pdf\<close>
  is pdf, a MIME type containing "document" or "text" is document, anything else other.
\<close>

definition classifier_spec :: "string \<Rightarrow> fileType" where
  "classifier_spec m =
     (if prefix ''image/'' m then Image
      else if m = ''application/pdf'' then Pdf
      else if sublist ''document'' m \<or> sublist ''text'' m then Document
      else Other)"

text \<open>
  The count of "direct plus indirect" subfolders, files and notes of a folder, as the
  specification's testable property has it: the direct items, and those of every
  subfolder in turn.
\<close>

fun subtreeItems :: "nat \<Rightarrow> objectId \<Rightarrow> objectId \<Rightarrow> store \<Rightarrow> nat option" where
  "subtreeItems 0 folderId userId s = None"
| "subtreeItems (Suc n) folderId userId s =
     (let below = map (\<lambda>f. subtreeItems n (folder_id f) userId s)
                    (filter (\<lambda>f. parentFolder f = Some folderId \<and> folder_owner f = userId)
                       (folderColl s))
      in if None \<in> set below then None
         else Some (totalItems folderId userId s + sum_list (map the below)))"

section \<open>Concrete states of the specification's scenarios\<close>

text \<open>An owner with a limit of 1000 bytes, an empty store, and two incoming files.\<close>

definition scenarioUser :: user where
  "scenarioUser = \<lparr> user_id = 1, storageUsed = 0, storageLimit = 1000 \<rparr>"

definition emptyStore :: store where
  "emptyStore = \<lparr> folderColl = [], fileColl = [], noteColl = [], disk = [], nextId = 0 \<rparr>"

definition file600 :: incoming where
  "file600 = \<lparr> in_filename = ''a.png'', in_originalname = ''a.png'', in_mimetype = ''image/png'',
               in_size = 600, in_path = ''uploads/1/a.png'' \<rparr>"

definition file500 :: incoming where
  "file500 = \<lparr> in_filename = ''b.txt'', in_originalname = ''b.txt'', in_mimetype = ''text/plain'',
               in_size = 500, in_path = ''uploads/1/b.txt'' \<rparr>"

definition storedFile600 :: fileDoc where
  "storedFile600 = newFile 0 scenarioUser None file600"

definition storeWith600 :: store where
  "storeWith600 = emptyStore\<lparr>fileColl := [storedFile600], disk := [''uploads/1/a.png''], nextId := 1\<rparr>"

definition user600 :: user where
  "user600 = scenarioUser\<lparr>storageUsed := 600\<rparr>"


text \<open>Folders and files of owner 1, and a store that holds the given folders.\<close>

definition mkFolder :: "objectId \<Rightarrow> string \<Rightarrow> objectId option \<Rightarrow> string \<Rightarrow> folderDoc" where
  "mkFolder i n p pth =
     \<lparr> folder_id = i, folder_name = n, description = None, folder_owner = 1,
       parentFolder = p, folder_path = pth, isFavorite = False, color = ''#3B82F6'' \<rparr>"

definition withFolders :: "folderDoc list \<Rightarrow> store" where
  "withFolders fs = emptyStore\<lparr>folderColl := fs, nextId := length fs\<rparr>"

definition photo :: "objectId \<Rightarrow> objectId option \<Rightarrow> int \<Rightarrow> fileDoc" where
  "photo i fld n =
     \<lparr> file_id = i, file_name = ''a.png'', originalName = ''a.png'', file_type = Image,
       mimeType = ''image/png'', file_size = n, file_path = ''uploads/1/a.png'',
       file_owner = 1, file_folder = fld \<rparr>"

section \<open>Facts about the string operations and the upload loop\<close>

lemma startsWith_prefix: "startsWith s p \<longleftrightarrow> prefix p s"
  by (induction s p rule: startsWith.induct) auto

lemma includes_js_sublist: "includes_js s sub \<longleftrightarrow> sublist sub s"
  by (induction s) (auto simp: startsWith_prefix sublist_Cons_right)

lemma totalSize_sum: "totalSize fs acc = acc + sum_list (map in_size fs)"
  by (induction fs arbitrary: acc) auto

lemma processFiles_result:
  "processFiles u folder fs uploaded s =
     (uploaded @ map (\<lambda>(k, f). newFile (nextId s + k) u folder f) (enumerate 0 fs),
      s\<lparr>fileColl := fileColl s @ map (\<lambda>(k, f). newFile (nextId s + k) u folder f) (enumerate 0 fs),
        nextId := nextId s + length fs\<rparr>)"
proof (induction fs arbitrary: uploaded s)
  case Nil
  then show ?case by simp
next
  case (Cons f fs)
  have e: "enumerate (Suc 0) fs = map (\<lambda>(k, f). (Suc k, f)) (enumerate 0 fs)"
    by (simp add: enumerate_Suc_eq apfst_def map_prod_def case_prod_unfold)
  show ?case
    by (simp add: Cons.IH Let_def e o_def case_prod_unfold)
qed

lemma set_unlinkIfExists: "set (unlinkIfExists p d) = set d - {p}"
  by (auto simp: unlinkIfExists_def)

lemma set_cleanupFiles: "set (cleanupFiles fs d) = set d - in_path ` set fs"
  by (induction fs arbitrary: d) (auto simp: set_unlinkIfExists)

lemma uploadFiles_ok:
  assumes "uploadFiles u reqFiles folder s = (Inr uploaded, u', s')"
  shows "uploaded = map (\<lambda>(k, f). newFile (nextId s + k) u folder f) (enumerate 0 reqFiles)"
    and "fileColl s' = fileColl s @ uploaded"
    and "u' = addStorage u (sum_list (map in_size reqFiles))"
    and "hasEnoughStorage u (sum_list (map in_size reqFiles))"
  using assms
  by (auto simp: uploadFiles_def Let_def processFiles_result totalSize_sum split: if_splits)


lemma find_app: "find P (xs @ ys) = (case find P xs of None \<Rightarrow> find P ys | Some x \<Rightarrow> Some x)"
  by (induction xs) auto

text \<open>The definitions that a route unfolds to when it is run on a concrete store.\<close>

lemmas fixture_defs = mkFolder_def withFolders_def emptyStore_def scenarioUser_def

lemmas create_defs = createFolder_def findFolder_def nameValid_def descriptionValid_def
  colorOrDefault_def Let_def

lemmas update_defs = updateFolder_def findFolder_def nameValid_def descriptionValid_def truthy_def
  updateFields_def saveFolder_def compilePrefixRegex_def otherMeta_def replace_js_def Let_def

lemmas duplicate_defs = duplicateFolder_def siblingNames_def findFolder_def schemaValid_def
  nameValid_def descriptionValid_def Let_def

lemmas delete_defs = deleteFolderRoute_def findFolder_def totalItems_def mkFolder_def photo_def
  emptyStore_def scenarioUser_def user600_def

lemma toString_1: "toString (Suc 0) = ''1''"
  by code_simp

text \<open>The loop of the duplicate route run on the sibling names of the scenarios.\<close>

lemma nextName_Docs_free:
  "nextName [''Docs''] ''Docs'' ''Docs (Copy)'' (Suc 0) = ''Docs (Copy)''"
  by (simp add: nextName.simps)

lemma nextName_Docs_taken:
  "nextName [''Docs'', ''Docs (Copy)''] ''Docs'' ''Docs (Copy)'' (Suc 0) = ''Docs (Copy 1)''"
  by (simp add: nextName.simps copyName_def toString_1)

section \<open>Facts about the folder routes\<close>

lemma firstFree_props:
  "c \<le> firstFree taken base c"
  "copyName base (firstFree taken base c) \<notin> set taken"
  "c \<le> j \<Longrightarrow> j < firstFree taken base c \<Longrightarrow> copyName base j \<in> set taken"
proof -
  have ex: "\<exists>j. c \<le> j \<and> copyName base j \<notin> set taken"
    using free_copyName_exists[of c base taken] by blast
  from LeastI_ex[OF ex] show "c \<le> firstFree taken base c"
    and "copyName base (firstFree taken base c) \<notin> set taken"
    unfolding firstFree_def by blast+
  show "copyName base j \<in> set taken" if "c \<le> j" "j < firstFree taken base c"
    using that not_less_Least[of j "\<lambda>j. c \<le> j \<and> copyName base j \<notin> set taken"]
    unfolding firstFree_def by blast
qed

lemma firstFree_step:
  "copyName base c \<in> set taken \<Longrightarrow> firstFree taken base c = firstFree taken base (Suc c)"
proof -
  assume t: "copyName base c \<in> set taken"
  have eq: "(c \<le> j \<and> copyName base j \<notin> set taken) = (Suc c \<le> j \<and> copyName base j \<notin> set taken)" for j
    using t by (cases "j = c") auto
  show ?thesis unfolding firstFree_def by (simp only: eq)
qed

lemma firstFree_here:
  "copyName base c \<notin> set taken \<Longrightarrow> firstFree taken base c = c"
  unfolding firstFree_def by (rule Least_equality) auto

lemma nextName_result:
  "nextName taken base dn c =
     (if dn \<in> set taken then copyName base (firstFree taken base c) else dn)"
proof (induction taken base dn c rule: nextName.induct)
  case (1 taken base dn c)
  show ?case
  proof (cases "dn \<in> set taken")
    case False
    then show ?thesis by (simp add: nextName.simps)
  next
    case True
    then have "nextName taken base dn c = nextName taken base (copyName base c) (Suc c)"
      by (simp add: nextName.simps)
    also have "\<dots> = (if copyName base c \<in> set taken
                      then copyName base (firstFree taken base (Suc c)) else copyName base c)"
      using 1 True by simp
    also have "\<dots> = copyName base (firstFree taken base c)"
      by (simp add: firstFree_step firstFree_here)
    finally show ?thesis using True by simp
  qed
qed

lemma findFolder_Some:
  "findFolder i uid fs = Some f \<Longrightarrow> f \<in> set fs \<and> folder_id f = i \<and> folder_owner f = uid"
  by (auto simp: findFolder_def find_Some_iff)

lemma subtree_nonempty_direct:
  assumes "subtreeItems n i uid s = Some k" and "0 < k"
  shows "0 < totalItems i uid s"
proof (cases n)
  case 0
  with assms show ?thesis by simp
next
  case (Suc m)
  show ?thesis
  proof (rule ccontr)
    assume "\<not> 0 < totalItems i uid s"
    then have z: "totalItems i uid s = 0" by simp
    then have "filter (\<lambda>f. parentFolder f = Some i \<and> folder_owner f = uid) (folderColl s) = []"
      by (simp add: totalItems_def)
    with assms(1) Suc z have "k = 0" by (simp add: Let_def)
    with assms(2) show False by simp
  qed
qed

lemma distinct_id_unique:
  "distinct (map folder_id fs) \<Longrightarrow> f \<in> set fs \<Longrightarrow> g \<in> set fs \<Longrightarrow> folder_id g = folder_id f \<Longrightarrow> g = f"
  by (meson distinct_map inj_onD)

lemma saveFolder_same:
  assumes "distinct (map folder_id fs)" and "f \<in> set fs"
  shows "map (\<lambda>g. if folder_id g = folder_id f then f else g) fs = fs"
  by (rule map_idI) (auto dest: distinct_id_unique[OF assms])

section \<open>File type classifier\<close>

text \<open>
  C9.  The type stored for an uploaded file is the classifier of the specification
  applied to its MIME type: the function \<open>getFileType\<close> of the code computes the
  specification's classifier, and a successful upload stores one document per incoming
  file, in order, with that file's MIME type and the classifier's value for it.
\<close>

theorem stored_type_is_classified:
  "getFileType m = classifier_spec m \<and>
   (uploadFiles u reqFiles folder s = (Inr uploaded, u', s') \<longrightarrow>
      length uploaded = length reqFiles \<and>
      fileColl s' = fileColl s @ uploaded \<and>
      (\<forall>k < length reqFiles.
          mimeType (uploaded ! k) = in_mimetype (reqFiles ! k) \<and>
          file_type (uploaded ! k) = classifier_spec (in_mimetype (reqFiles ! k))))"
proof -
  have c: "getFileType x = classifier_spec x" for x
    by (simp add: classifier_spec_def startsWith_prefix includes_js_sublist)
  have "length uploaded = length reqFiles \<and>
      fileColl s' = fileColl s @ uploaded \<and>
      (\<forall>k < length reqFiles.
          mimeType (uploaded ! k) = in_mimetype (reqFiles ! k) \<and>
          file_type (uploaded ! k) = classifier_spec (in_mimetype (reqFiles ! k)))"
    if h: "uploadFiles u reqFiles folder s = (Inr uploaded, u', s')"
  proof -
    note r = uploadFiles_ok[OF h]
    have "length uploaded = length reqFiles" by (simp add: r(1))
    moreover have "mimeType (uploaded ! k) = in_mimetype (reqFiles ! k) \<and>
          file_type (uploaded ! k) = classifier_spec (in_mimetype (reqFiles ! k))"
      if "k < length reqFiles" for k
      using that by (simp add: r(1) nth_enumerate_eq newFile_def c del: getFileType.simps)
    ultimately show ?thesis using r(2) by blast
  qed
  with c show ?thesis by blast
qed


theorem stored_type_is_classified_witness:
  "uploadFiles (scenarioUser\<lparr>storageLimit := 2000\<rparr>) [file600, file500] None emptyStore =
     (Inr [newFile 0 scenarioUser None file600, newFile 1 scenarioUser None file500],
      scenarioUser\<lparr>storageUsed := 1100, storageLimit := 2000\<rparr>,
      emptyStore\<lparr>fileColl := [newFile 0 scenarioUser None file600,
                                newFile 1 scenarioUser None file500], nextId := 2\<rparr>) \<and>
   file_type (newFile 0 scenarioUser None file600) = classifier_spec ''image/png'' \<and>
   file_type (newFile 1 scenarioUser None file500) = classifier_spec ''text/plain''"
proof -
  have h: "uploadFiles (scenarioUser\<lparr>storageLimit := 2000\<rparr>) [file600, file500] None emptyStore =
     (Inr [newFile 0 scenarioUser None file600, newFile 1 scenarioUser None file500],
      scenarioUser\<lparr>storageUsed := 1100, storageLimit := 2000\<rparr>,
      emptyStore\<lparr>fileColl := [newFile 0 scenarioUser None file600,
                                newFile 1 scenarioUser None file500], nextId := 2\<rparr>)"
    by (simp add: uploadFiles_def hasEnoughStorage_def addStorage_def scenarioUser_def
          emptyStore_def file600_def file500_def newFile_def Let_def)
  note t = stored_type_is_classified[THEN conjunct2, rule_format, OF h]
  have t': "k < 2 \<Longrightarrow> file_type ([newFile 0 scenarioUser None file600, newFile 1 scenarioUser None file500] ! k)
          = classifier_spec (in_mimetype ([file600, file500] ! k))" for k
    using t by simp
  from t'[of 0] t'[of 1]
  have "file_type (newFile 0 scenarioUser None file600) = classifier_spec (in_mimetype file600)"
    and "file_type (newFile 1 scenarioUser None file500) = classifier_spec (in_mimetype file500)"
    by simp_all
  with h show ?thesis by (simp add: file600_def file500_def)
qed


section \<open>Quota check\<close>

text \<open>
  C4.  The check \<open>hasEnoughStorage\<close> fails exactly when \<open>storageUsed + n\<close> exceeds
  \<open>storageLimit\<close>.  An upload of a non-empty batch is rejected as \<open>QuotaExceeded\<close>
  exactly when the sum of the incoming sizes does not fit, the duplication of a file
  that was found exactly when the file's size does not fit, and a rejection leaves the
  user's ledger (and for the duplication the whole store) as it was.
\<close>

theorem quota_check_iff:
  "(\<not> hasEnoughStorage u n \<longleftrightarrow> storageUsed u + n > storageLimit u) \<and>
   (reqFiles \<noteq> [] \<longrightarrow>
      (fst (uploadFiles u reqFiles folder s) = Inl QuotaExceeded
         \<longleftrightarrow> storageUsed u + sum_list (map in_size reqFiles) > storageLimit u)) \<and>
   (fst (uploadFiles u reqFiles folder s) = Inl QuotaExceeded \<longrightarrow>
      fst (snd (uploadFiles u reqFiles folder s)) = u \<and>
      fileColl (snd (snd (uploadFiles u reqFiles folder s))) = fileColl s) \<and>
   (findFile i (user_id u) (fileColl s) = Some orig \<longrightarrow>
      (fst (duplicateFile u i duplicateName newFileName newFilePath s) = Inl QuotaExceeded
         \<longleftrightarrow> storageUsed u + file_size orig > storageLimit u)) \<and>
   (fst (duplicateFile u i duplicateName newFileName newFilePath s) = Inl QuotaExceeded \<longrightarrow>
      snd (duplicateFile u i duplicateName newFileName newFilePath s) = (u, s))"
proof (intro conjI impI)
  show "(\<not> hasEnoughStorage u n) = (storageLimit u < storageUsed u + n)"
    by (auto simp: hasEnoughStorage_def)
next
  assume "reqFiles \<noteq> []"
  then show "(fst (uploadFiles u reqFiles folder s) = Inl QuotaExceeded)
      = (storageLimit u < storageUsed u + sum_list (map in_size reqFiles))"
    by (auto simp: uploadFiles_def Let_def hasEnoughStorage_def totalSize_sum split: prod.splits)
next
  assume a: "fst (uploadFiles u reqFiles folder s) = Inl QuotaExceeded"
  then show "fst (snd (uploadFiles u reqFiles folder s)) = u"
    by (auto simp: uploadFiles_def Let_def split: if_splits prod.splits)
  from a show "fileColl (snd (snd (uploadFiles u reqFiles folder s))) = fileColl s"
    by (auto simp: uploadFiles_def Let_def split: if_splits prod.splits)
next
  assume "findFile i (user_id u) (fileColl s) = Some orig"
  then show "(fst (duplicateFile u i duplicateName newFileName newFilePath s) = Inl QuotaExceeded)
      = (storageLimit u < storageUsed u + file_size orig)"
    by (auto simp: duplicateFile_def Let_def hasEnoughStorage_def)
next
  assume "fst (duplicateFile u i duplicateName newFileName newFilePath s) = Inl QuotaExceeded"
  then show "snd (duplicateFile u i duplicateName newFileName newFilePath s) = (u, s)"
    by (auto simp: duplicateFile_def Let_def split: option.splits if_splits)
qed


theorem quota_check_iff_witness:
  "[file500] \<noteq> [] \<and>
   fst (uploadFiles user600 [file500] None storeWith600) = Inl QuotaExceeded \<and>
   storageLimit user600 < storageUsed user600 + sum_list (map in_size [file500]) \<and>
   fst (snd (uploadFiles user600 [file500] None storeWith600)) = user600 \<and>
   findFile 0 (user_id user600) (fileColl storeWith600) = Some storedFile600 \<and>
   fst (duplicateFile user600 0 ''a (Copy).png'' ''a-copy-1.png'' ''uploads/1/a-copy-1.png'' storeWith600)
     = Inl QuotaExceeded \<and>
   snd (duplicateFile user600 0 ''a (Copy).png'' ''a-copy-1.png'' ''uploads/1/a-copy-1.png'' storeWith600)
     = (user600, storeWith600)"
proof -
  have ne: "[file500] \<noteq> []" by simp
  have over: "storageLimit user600 < storageUsed user600 + sum_list (map in_size [file500])"
    by (simp add: user600_def scenarioUser_def file500_def)
  have found: "findFile 0 (user_id user600) (fileColl storeWith600) = Some storedFile600"
    by (simp add: findFile_def user600_def scenarioUser_def storeWith600_def storedFile600_def
          newFile_def emptyStore_def)
  have over2: "storageLimit user600 < storageUsed user600 + file_size storedFile600"
    by (simp add: user600_def scenarioUser_def storedFile600_def newFile_def file600_def)
  note q = quota_check_iff[of user600 _ "[file500]" None storeWith600 0 storedFile600
              "''a (Copy).png''" "''a-copy-1.png''" "''uploads/1/a-copy-1.png''"]
  from q ne over have r1: "fst (uploadFiles user600 [file500] None storeWith600) = Inl QuotaExceeded"
    by blast
  with q have r2: "fst (snd (uploadFiles user600 [file500] None storeWith600)) = user600" by blast
  from q found over2 have r3: "fst (duplicateFile user600 0 ''a (Copy).png'' ''a-copy-1.png'' ''uploads/1/a-copy-1.png'' storeWith600) = Inl QuotaExceeded"
    by blast
  with q have "snd (duplicateFile user600 0 ''a (Copy).png'' ''a-copy-1.png'' ''uploads/1/a-copy-1.png'' storeWith600) = (user600, storeWith600)"
    by blast
  with ne over found r1 r2 r3 show ?thesis by blast
qed


section \<open>Reserve and release\<close>

text \<open>
  C5.  For a user with non-negative \<open>storageUsed\<close> and a non-negative \<open>n\<close>, adding
  \<open>n\<close> to the ledger and then releasing \<open>n\<close> gives the user back unchanged; a release
  is a total function whose result is never negative; and on the routes, the upload of
  one file followed by the deletion of the document it created returns the user to the
  ledger it started from.
\<close>

theorem reserve_then_release:
  "(0 \<le> storageUsed u \<and> 0 \<le> n \<longrightarrow> releaseStorage (addStorage u n) n = u) \<and>
   0 \<le> storageUsed (releaseStorage v m) \<and>
   (0 \<le> storageUsed u \<and> 0 \<le> in_size f \<and> (\<forall>g \<in> set (fileColl s). file_id g \<noteq> nextId s) \<and>
    uploadFiles u [f] folder s = (Inr uploaded, u', s') \<longrightarrow>
      storageUsed u' = storageUsed u + in_size f \<and>
      fst (deleteFile u' (nextId s) s') = Inr () \<and>
      fst (snd (deleteFile u' (nextId s) s')) = u)"
proof (intro conjI impI)
  assume "0 \<le> storageUsed u \<and> 0 \<le> n"
  then show "releaseStorage (addStorage u n) n = u"
    by (simp add: releaseStorage_def addStorage_def)
next
  show "0 \<le> storageUsed (releaseStorage v m)"
    by (simp add: releaseStorage_def)
next
  assume a: "0 \<le> storageUsed u \<and> 0 \<le> in_size f \<and> (\<forall>g \<in> set (fileColl s). file_id g \<noteq> nextId s) \<and>
    uploadFiles u [f] folder s = (Inr uploaded, u', s')"
  then have up: "uploadFiles u [f] folder s = (Inr uploaded, u', s')" by blast
  note r = uploadFiles_ok[OF up]
  have u': "u' = addStorage u (in_size f)" using r(3) by simp
  have upl: "uploaded = [newFile (nextId s) u folder f]" using r(1) by simp
  have nf: "find (\<lambda>g. file_id g = nextId s \<and> file_owner g = user_id u) (fileColl s) = None"
    using a by (auto simp: find_None_iff)
  have uid: "user_id u' = user_id u" by (simp add: u' addStorage_def)
  have found: "findFile (nextId s) (user_id u) (fileColl s') = Some (newFile (nextId s) u folder f)"
    using nf by (simp add: findFile_def r(2) upl find_app newFile_def)
  have d: "fst (deleteFile u' (nextId s) s') = Inr () \<and>
           fst (snd (deleteFile u' (nextId s) s')) = releaseStorage u' (in_size f)"
    by (simp add: deleteFile_def uid found newFile_def)
  show "storageUsed u' = storageUsed u + in_size f" by (simp add: u' addStorage_def)
  show "fst (deleteFile u' (nextId s) s') = Inr ()" using d by blast
  have "releaseStorage u' (in_size f) = u"
    using a by (simp add: u' releaseStorage_def addStorage_def)
  then show "fst (snd (deleteFile u' (nextId s) s')) = u" using d by simp
qed

theorem reserve_then_release_witness:
  "0 \<le> storageUsed scenarioUser \<and> (0::int) \<le> 600 \<and>
   releaseStorage (addStorage scenarioUser 600) 600 = scenarioUser \<and>
   0 \<le> in_size file600 \<and>
   uploadFiles scenarioUser [file600] None emptyStore
     = (Inr [storedFile600], user600, emptyStore\<lparr>fileColl := [storedFile600], nextId := 1\<rparr>) \<and>
   storageUsed user600 = storageUsed scenarioUser + in_size file600 \<and>
   fst (deleteFile user600 (nextId emptyStore) (emptyStore\<lparr>fileColl := [storedFile600], nextId := 1\<rparr>)) = Inr () \<and>
   fst (snd (deleteFile user600 (nextId emptyStore) (emptyStore\<lparr>fileColl := [storedFile600], nextId := 1\<rparr>)))
     = scenarioUser"
proof -
  have h1: "0 \<le> storageUsed scenarioUser \<and> (0::int) \<le> 600" by (simp add: scenarioUser_def)
  have h2: "0 \<le> storageUsed scenarioUser \<and> 0 \<le> in_size file600 \<and>
      (\<forall>g \<in> set (fileColl emptyStore). file_id g \<noteq> nextId emptyStore) \<and>
      uploadFiles scenarioUser [file600] None emptyStore
       = (Inr [storedFile600], user600, emptyStore\<lparr>fileColl := [storedFile600], nextId := 1\<rparr>)"
    by (simp add: uploadFiles_def hasEnoughStorage_def addStorage_def scenarioUser_def
          emptyStore_def file600_def newFile_def storedFile600_def user600_def Let_def)
  note t = reserve_then_release[of scenarioUser 600 _ _ file600 emptyStore None "[storedFile600]" user600
      "emptyStore\<lparr>fileColl := [storedFile600], nextId := 1\<rparr>"]
  from t h1 have c1: "releaseStorage (addStorage scenarioUser 600) 600 = scenarioUser" by blast
  from t h2 have c2: "storageUsed user600 = storageUsed scenarioUser + in_size file600 \<and>
      fst (deleteFile user600 (nextId emptyStore) (emptyStore\<lparr>fileColl := [storedFile600], nextId := 1\<rparr>)) = Inr () \<and>
      fst (snd (deleteFile user600 (nextId emptyStore) (emptyStore\<lparr>fileColl := [storedFile600], nextId := 1\<rparr>)))
        = scenarioUser" by blast
  from h1 h2 c1 c2 show ?thesis by blast
qed

section \<open>Rejected uploads\<close>

text \<open>
  C7.  When the batch does not fit, the upload answers \<open>QuotaExceeded\<close>, returns the
  user unchanged, creates no File document, and no path of the batch is left on disk
  (nothing else is removed from it).  In the scenario with a limit of 1000 bytes, the
  upload of 600 bytes succeeds and brings \<open>storageUsed\<close> to 600, the upload of 500
  bytes is then rejected and leaves 600, and the deletion of the 600-byte file brings
  \<open>storageUsed\<close> back to 0.
\<close>

theorem rejected_upload_leaves_no_trace:
  "(reqFiles \<noteq> [] \<and> \<not> hasEnoughStorage u (sum_list (map in_size reqFiles)) \<longrightarrow>
      uploadFiles u reqFiles folder s = (Inl QuotaExceeded, u, s\<lparr>disk := cleanupFiles reqFiles (disk s)\<rparr>) \<and>
      fileColl (s\<lparr>disk := cleanupFiles reqFiles (disk s)\<rparr>) = fileColl s \<and>
      (\<forall>f \<in> set reqFiles. in_path f \<notin> set (cleanupFiles reqFiles (disk s))) \<and>
      set (cleanupFiles reqFiles (disk s)) = set (disk s) - in_path ` set reqFiles) \<and>
   uploadFiles scenarioUser [file600] None (emptyStore\<lparr>disk := [in_path file600]\<rparr>)
     = (Inr [storedFile600], user600, storeWith600) \<and>
   storageUsed user600 = 600 \<and> storageLimit user600 = 1000 \<and>
   uploadFiles user600 [file500] None (storeWith600\<lparr>disk := disk storeWith600 @ [in_path file500]\<rparr>)
     = (Inl QuotaExceeded, user600, storeWith600) \<and>
   deleteFile user600 (file_id storedFile600) storeWith600
     = (Inr (), user600\<lparr>storageUsed := 0\<rparr>, emptyStore\<lparr>nextId := 1\<rparr>)"
proof (intro conjI impI)
  assume a: "reqFiles \<noteq> [] \<and> \<not> hasEnoughStorage u (sum_list (map in_size reqFiles))"
  then show "uploadFiles u reqFiles folder s = (Inl QuotaExceeded, u, s\<lparr>disk := cleanupFiles reqFiles (disk s)\<rparr>)"
    by (simp add: uploadFiles_def totalSize_sum)
  show "fileColl (s\<lparr>disk := cleanupFiles reqFiles (disk s)\<rparr>) = fileColl s" by simp
  show "\<forall>f \<in> set reqFiles. in_path f \<notin> set (cleanupFiles reqFiles (disk s))"
    by (simp add: set_cleanupFiles)
  show "set (cleanupFiles reqFiles (disk s)) = set (disk s) - in_path ` set reqFiles"
    by (rule set_cleanupFiles)
next
  show "uploadFiles scenarioUser [file600] None (emptyStore\<lparr>disk := [in_path file600]\<rparr>)
     = (Inr [storedFile600], user600, storeWith600)"
    by (simp add: uploadFiles_def hasEnoughStorage_def addStorage_def scenarioUser_def
          emptyStore_def file600_def newFile_def storedFile600_def user600_def storeWith600_def Let_def)
  show "storageUsed user600 = 600" by (simp add: user600_def)
  show "storageLimit user600 = 1000" by (simp add: user600_def scenarioUser_def)
  show "uploadFiles user600 [file500] None (storeWith600\<lparr>disk := disk storeWith600 @ [in_path file500]\<rparr>)
     = (Inl QuotaExceeded, user600, storeWith600)"
    by (simp add: uploadFiles_def hasEnoughStorage_def scenarioUser_def unlinkIfExists_def
          emptyStore_def file500_def user600_def storeWith600_def)
  show "deleteFile user600 (file_id storedFile600) storeWith600
     = (Inr (), user600\<lparr>storageUsed := 0\<rparr>, emptyStore\<lparr>nextId := 1\<rparr>)"
    by (simp add: deleteFile_def findFile_def releaseStorage_def scenarioUser_def unlinkIfExists_def
          emptyStore_def file600_def newFile_def storedFile600_def user600_def storeWith600_def)
qed

theorem rejected_upload_leaves_no_trace_witness:
  "[file500] \<noteq> [] \<and> \<not> hasEnoughStorage user600 (sum_list (map in_size [file500])) \<and>
   uploadFiles user600 [file500] None (storeWith600\<lparr>disk := disk storeWith600 @ [in_path file500]\<rparr>)
     = (Inl QuotaExceeded, user600,
        storeWith600\<lparr>disk := cleanupFiles [file500] (disk storeWith600 @ [in_path file500])\<rparr>) \<and>
   in_path file500 \<notin> set (cleanupFiles [file500] (disk storeWith600 @ [in_path file500]))"
proof -
  have h: "[file500] \<noteq> [] \<and> \<not> hasEnoughStorage user600 (sum_list (map in_size [file500]))"
    by (simp add: hasEnoughStorage_def user600_def scenarioUser_def file500_def)
  note t = rejected_upload_leaves_no_trace[THEN conjunct1, rule_format, OF h, of None
      "storeWith600\<lparr>disk := disk storeWith600 @ [in_path file500]\<rparr>"]
  from t have "uploadFiles user600 [file500] None (storeWith600\<lparr>disk := disk storeWith600 @ [in_path file500]\<rparr>)
     = (Inl QuotaExceeded, user600,
        storeWith600\<lparr>disk := cleanupFiles [file500] (disk storeWith600 @ [in_path file500])\<rparr>)"
    by simp
  moreover from t have "in_path file500 \<notin> set (cleanupFiles [file500] (disk storeWith600 @ [in_path file500]))"
    by simp
  ultimately show ?thesis using h by blast
qed


section \<open>Path invariant\<close>

text \<open>
  C1.  The stored path does not stay equal to the chain of names after every rename.
  Owner 1 creates the root folder "Photos (2024)" and the folder "Trip" inside it, then
  renames the root folder to "Photos".  The pattern built from the old path reads the
  parentheses as a group, so the query does not return "Trip", whose stored path stays
  "Photos (2024)/Trip", while \<open>getFullPath\<close> of "Trip" is now "Photos/Trip".
\<close>

theorem renamed_parent_breaks_path_invariant:
  "createFolder scenarioUser ''Photos (2024)'' None None None emptyStore
     = (Inr (mkFolder 0 ''Photos (2024)'' None ''Photos (2024)''),
        withFolders [mkFolder 0 ''Photos (2024)'' None ''Photos (2024)'']) \<and>
   createFolder scenarioUser ''Trip'' None (Some 0) None
       (withFolders [mkFolder 0 ''Photos (2024)'' None ''Photos (2024)''])
     = (Inr (mkFolder 1 ''Trip'' (Some 0) ''Photos (2024)/Trip''),
        withFolders [mkFolder 0 ''Photos (2024)'' None ''Photos (2024)'',
                     mkFolder 1 ''Trip'' (Some 0) ''Photos (2024)/Trip'']) \<and>
   updateFolder scenarioUser 0 (Some ''Photos'') None None None
       (withFolders [mkFolder 0 ''Photos (2024)'' None ''Photos (2024)'',
                     mkFolder 1 ''Trip'' (Some 0) ''Photos (2024)/Trip''])
     = Some (Inr (mkFolder 0 ''Photos'' None ''Photos''),
             withFolders [mkFolder 0 ''Photos'' None ''Photos'',
                          mkFolder 1 ''Trip'' (Some 0) ''Photos (2024)/Trip'']) \<and>
   getFullPath 2 [mkFolder 0 ''Photos'' None ''Photos'',
                  mkFolder 1 ''Trip'' (Some 0) ''Photos (2024)/Trip'']
       (mkFolder 1 ''Trip'' (Some 0) ''Photos (2024)/Trip'')
     = Some (Inr ''Photos/Trip'') \<and>
   folder_path (mkFolder 1 ''Trip'' (Some 0) ''Photos (2024)/Trip'') \<noteq> ''Photos/Trip''"
proof (intro conjI)
  show "createFolder scenarioUser ''Photos (2024)'' None None None emptyStore
     = (Inr (mkFolder 0 ''Photos (2024)'' None ''Photos (2024)''),
        withFolders [mkFolder 0 ''Photos (2024)'' None ''Photos (2024)''])"
    by (simp add: create_defs fixture_defs)
  show "createFolder scenarioUser ''Trip'' None (Some 0) None
       (withFolders [mkFolder 0 ''Photos (2024)'' None ''Photos (2024)''])
     = (Inr (mkFolder 1 ''Trip'' (Some 0) ''Photos (2024)/Trip''),
        withFolders [mkFolder 0 ''Photos (2024)'' None ''Photos (2024)'',
                     mkFolder 1 ''Trip'' (Some 0) ''Photos (2024)/Trip''])"
    by (simp add: create_defs fixture_defs)
  show "updateFolder scenarioUser 0 (Some ''Photos'') None None None
       (withFolders [mkFolder 0 ''Photos (2024)'' None ''Photos (2024)'',
                     mkFolder 1 ''Trip'' (Some 0) ''Photos (2024)/Trip''])
     = Some (Inr (mkFolder 0 ''Photos'' None ''Photos''),
             withFolders [mkFolder 0 ''Photos'' None ''Photos'',
                          mkFolder 1 ''Trip'' (Some 0) ''Photos (2024)/Trip''])"
    by (simp add: update_defs fixture_defs)
  show "getFullPath 2 [mkFolder 0 ''Photos'' None ''Photos'',
                  mkFolder 1 ''Trip'' (Some 0) ''Photos (2024)/Trip'']
       (mkFolder 1 ''Trip'' (Some 0) ''Photos (2024)/Trip'')
     = Some (Inr ''Photos/Trip'')"
    by (simp add: fixture_defs findById_def numeral_2_eq_2)
  show "folder_path (mkFolder 1 ''Trip'' (Some 0) ''Photos (2024)/Trip'') \<noteq> ''Photos/Trip''"
    by (simp add: mkFolder_def)
qed

section \<open>Rename\<close>

text \<open>
  C3.  A rename does not rewrite every path that starts with the old path and a slash.
  Owner 1 duplicates the root folder "Docs", creates "X" inside the copy "Docs (Copy)",
  and renames the copy to "Archive".  The path of "X" starts with "Docs (Copy)/" and
  belongs to the same owner, but it is still "Docs (Copy)/X" after the rename, not
  "Archive/X".
\<close>

theorem rename_misses_descendant_of_copy:
  "duplicateFolder scenarioUser 0 (withFolders [mkFolder 0 ''Docs'' None ''Docs''])
     = (Inr (mkFolder 1 ''Docs (Copy)'' None ''Docs (Copy)''),
        withFolders [mkFolder 0 ''Docs'' None ''Docs'',
                     mkFolder 1 ''Docs (Copy)'' None ''Docs (Copy)'']) \<and>
   createFolder scenarioUser ''X'' None (Some 1) None
       (withFolders [mkFolder 0 ''Docs'' None ''Docs'',
                     mkFolder 1 ''Docs (Copy)'' None ''Docs (Copy)''])
     = (Inr (mkFolder 2 ''X'' (Some 1) ''Docs (Copy)/X''),
        withFolders [mkFolder 0 ''Docs'' None ''Docs'',
                     mkFolder 1 ''Docs (Copy)'' None ''Docs (Copy)'',
                     mkFolder 2 ''X'' (Some 1) ''Docs (Copy)/X'']) \<and>
   updateFolder scenarioUser 1 (Some ''Archive'') None None None
       (withFolders [mkFolder 0 ''Docs'' None ''Docs'',
                     mkFolder 1 ''Docs (Copy)'' None ''Docs (Copy)'',
                     mkFolder 2 ''X'' (Some 1) ''Docs (Copy)/X''])
     = Some (Inr (mkFolder 1 ''Archive'' None ''Archive''),
             withFolders [mkFolder 0 ''Docs'' None ''Docs'',
                          mkFolder 1 ''Archive'' None ''Archive'',
                          mkFolder 2 ''X'' (Some 1) ''Docs (Copy)/X'']) \<and>
   startsWith (folder_path (mkFolder 2 ''X'' (Some 1) ''Docs (Copy)/X'')) (''Docs (Copy)'' @ ''/'') \<and>
   folder_owner (mkFolder 2 ''X'' (Some 1) ''Docs (Copy)/X'') = user_id scenarioUser \<and>
   folder_path (mkFolder 2 ''X'' (Some 1) ''Docs (Copy)/X'') \<noteq> ''Archive'' @ ''/'' @ ''X''"
proof (intro conjI)
  show "duplicateFolder scenarioUser 0 (withFolders [mkFolder 0 ''Docs'' None ''Docs''])
     = (Inr (mkFolder 1 ''Docs (Copy)'' None ''Docs (Copy)''),
        withFolders [mkFolder 0 ''Docs'' None ''Docs'',
                     mkFolder 1 ''Docs (Copy)'' None ''Docs (Copy)''])"
    by (simp add: duplicate_defs fixture_defs nextName_Docs_free)
  show "createFolder scenarioUser ''X'' None (Some 1) None
       (withFolders [mkFolder 0 ''Docs'' None ''Docs'',
                     mkFolder 1 ''Docs (Copy)'' None ''Docs (Copy)''])
     = (Inr (mkFolder 2 ''X'' (Some 1) ''Docs (Copy)/X''),
        withFolders [mkFolder 0 ''Docs'' None ''Docs'',
                     mkFolder 1 ''Docs (Copy)'' None ''Docs (Copy)'',
                     mkFolder 2 ''X'' (Some 1) ''Docs (Copy)/X''])"
    by (simp add: create_defs fixture_defs)
  show "updateFolder scenarioUser 1 (Some ''Archive'') None None None
       (withFolders [mkFolder 0 ''Docs'' None ''Docs'',
                     mkFolder 1 ''Docs (Copy)'' None ''Docs (Copy)'',
                     mkFolder 2 ''X'' (Some 1) ''Docs (Copy)/X''])
     = Some (Inr (mkFolder 1 ''Archive'' None ''Archive''),
             withFolders [mkFolder 0 ''Docs'' None ''Docs'',
                          mkFolder 1 ''Archive'' None ''Archive'',
                          mkFolder 2 ''X'' (Some 1) ''Docs (Copy)/X''])"
    by (simp add: update_defs fixture_defs)
  show "startsWith (folder_path (mkFolder 2 ''X'' (Some 1) ''Docs (Copy)/X'')) (''Docs (Copy)'' @ ''/'')"
    by (simp add: mkFolder_def)
  show "folder_owner (mkFolder 2 ''X'' (Some 1) ''Docs (Copy)/X'') = user_id scenarioUser"
    by (simp add: mkFolder_def scenarioUser_def)
  show "folder_path (mkFolder 2 ''X'' (Some 1) ''Docs (Copy)/X'') \<noteq> ''Archive'' @ ''/'' @ ''X''"
    by (simp add: mkFolder_def)
qed

section \<open>Forced folder deletion\<close>

text \<open>
  C2.  A forced deletion removes the folder and the file in it, but the ledger is not
  decremented: the owner has \<open>storageUsed = 600\<close> and a folder holding one file of 600
  bytes; after the deletion the file document is gone and \<open>storageUsed\<close> is still
  600.  The stored bytes stay on disk as well.
\<close>

theorem cascade_delete_keeps_ledger:
  "deleteFolderRoute 1 user600 0 True
       \<lparr> folderColl = [mkFolder 0 ''Pictures'' None ''Pictures''],
         fileColl = [photo 1 (Some 0) 600], noteColl = [],
         disk = [''uploads/1/a.png''], nextId = 2 \<rparr>
     = Some (Inr (), user600,
             \<lparr> folderColl = [], fileColl = [], noteColl = [],
               disk = [''uploads/1/a.png''], nextId = 2 \<rparr>) \<and>
   storageUsed user600 = 600 \<and>
   sum_list (map file_size [photo 1 (Some 0) 600]) = 600"
  by (simp add: delete_defs)

section \<open>Folder deletion without force\<close>

text \<open>
  C6, as the specification states it, fails: folder "A" holds the subfolder "B", which
  holds one file, so there are two items below "A" (one direct, one indirect); the
  deletion without force reports \<open>NotEmpty 1\<close>, the number of direct items.
\<close>

theorem nonforced_delete_count_counterexample:
  "subtreeItems 2 0 (user_id scenarioUser)
       \<lparr> folderColl = [mkFolder 0 ''A'' None ''A'', mkFolder 1 ''B'' (Some 0) ''A/B''],
         fileColl = [photo 2 (Some 1) 600], noteColl = [],
         disk = [''uploads/1/a.png''], nextId = 3 \<rparr> = Some 2 \<and>
   deleteFolderRoute 2 scenarioUser 0 False
       \<lparr> folderColl = [mkFolder 0 ''A'' None ''A'', mkFolder 1 ''B'' (Some 0) ''A/B''],
         fileColl = [photo 2 (Some 1) 600], noteColl = [],
         disk = [''uploads/1/a.png''], nextId = 3 \<rparr>
     = Some (Inl (NotEmpty 1), scenarioUser,
             \<lparr> folderColl = [mkFolder 0 ''A'' None ''A'', mkFolder 1 ''B'' (Some 0) ''A/B''],
               fileColl = [photo 2 (Some 1) 600], noteColl = [],
               disk = [''uploads/1/a.png''], nextId = 3 \<rparr>)"
  by (simp add: delete_defs numeral_2_eq_2)

text \<open>
  C6, amended.  For every folder of the owner with at least one item below it, the
  deletion without force answers \<open>NotEmpty\<close> with the number of direct subfolders,
  files and notes of the folder (indirect items are not counted), and returns the user
  and the store unchanged.
\<close>

theorem nonforced_delete_reports_direct_count:
  assumes "findFolder i (user_id u) (folderColl s) = Some folder"
    and "subtreeItems n i (user_id u) s = Some k" and "0 < k"
  shows "deleteFolderRoute fuel u i False s =
           Some (Inl (NotEmpty
                   (length (filter (\<lambda>f. parentFolder f = Some i \<and> folder_owner f = user_id u) (folderColl s))
                    + length (filter (\<lambda>f. file_folder f = Some i \<and> file_owner f = user_id u) (fileColl s))
                    + length (filter (\<lambda>n. note_folder n = Some i \<and> note_owner n = user_id u) (noteColl s)))),
                 u, s)"
proof -
  have fid: "folder_id folder = i" using findFolder_Some[OF assms(1)] by blast
  have "0 < totalItems i (user_id u) s" using assms(2,3) by (rule subtree_nonempty_direct)
  then show ?thesis
    using assms(1) fid by (simp add: deleteFolderRoute_def) (simp add: totalItems_def)
qed

theorem nonforced_delete_reports_direct_count_witness:
  "findFolder 0 (user_id scenarioUser)
      (folderColl \<lparr> folderColl = [mkFolder 0 ''A'' None ''A'', mkFolder 1 ''B'' (Some 0) ''A/B''],
         fileColl = [photo 2 (Some 1) 600], noteColl = [],
         disk = [''uploads/1/a.png''], nextId = 3 \<rparr>) = Some (mkFolder 0 ''A'' None ''A'') \<and>
   subtreeItems 2 0 (user_id scenarioUser)
       \<lparr> folderColl = [mkFolder 0 ''A'' None ''A'', mkFolder 1 ''B'' (Some 0) ''A/B''],
         fileColl = [photo 2 (Some 1) 600], noteColl = [],
         disk = [''uploads/1/a.png''], nextId = 3 \<rparr> = Some 2 \<and>
   deleteFolderRoute 0 scenarioUser 0 False
       \<lparr> folderColl = [mkFolder 0 ''A'' None ''A'', mkFolder 1 ''B'' (Some 0) ''A/B''],
         fileColl = [photo 2 (Some 1) 600], noteColl = [],
         disk = [''uploads/1/a.png''], nextId = 3 \<rparr>
     = Some (Inl (NotEmpty 1), scenarioUser,
             \<lparr> folderColl = [mkFolder 0 ''A'' None ''A'', mkFolder 1 ''B'' (Some 0) ''A/B''],
               fileColl = [photo 2 (Some 1) 600], noteColl = [],
               disk = [''uploads/1/a.png''], nextId = 3 \<rparr>)"
proof -
  let ?s = "\<lparr> folderColl = [mkFolder 0 ''A'' None ''A'', mkFolder 1 ''B'' (Some 0) ''A/B''],
         fileColl = [photo 2 (Some 1) 600], noteColl = [],
         disk = [''uploads/1/a.png''], nextId = 3 \<rparr>"
  have h1: "findFolder 0 (user_id scenarioUser) (folderColl ?s) = Some (mkFolder 0 ''A'' None ''A'')"
    by (simp add: delete_defs)
  have h2: "subtreeItems 2 0 (user_id scenarioUser) ?s = Some 2"
    by (simp add: delete_defs numeral_2_eq_2)
  have h3: "(0::nat) < 2" by simp
  from nonforced_delete_reports_direct_count[OF h1 h2 h3, of 0]
  have "deleteFolderRoute 0 scenarioUser 0 False ?s = Some (Inl (NotEmpty 1), scenarioUser, ?s)"
    by (simp add: delete_defs)
  with h1 h2 show ?thesis by blast
qed

section \<open>Folder duplication\<close>

text \<open>
  C8, as the specification states it, fails in its example: the duplicate of "Docs"
  beside a sibling "Docs (Copy)" is named "Docs (Copy 1)", not "Docs (Copy 2)".
\<close>

theorem duplicate_name_counterexample:
  "fst (duplicateFolder scenarioUser 0
          (withFolders [mkFolder 0 ''Docs'' None ''Docs'',
                        mkFolder 1 ''Docs (Copy)'' None ''Docs (Copy)'']))
     = Inr (mkFolder 2 ''Docs (Copy 1)'' None ''Docs (Copy 1)'') \<and>
   folder_name (mkFolder 2 ''Docs (Copy 1)'' None ''Docs (Copy 1)'') \<noteq> ''Docs (Copy 2)''"
  by (simp add: duplicate_defs fixture_defs nextName_Docs_taken)


text \<open>
  C8, amended.  For a folder that was found, the duplicate's name is "name (Copy)" when
  that is free among the siblings of the same owner and parent, and otherwise
  "name (Copy N)" for the smallest \<open>N \<ge> 1\<close> whose name is free.  When this name has
  at most 255 characters, the limit of the folder schema, the route creates a new
  sibling of the same owner and parent with that name; a longer name is refused by the
  schema on \<open>save()\<close>, and the route answers with a server error and creates nothing.
  Beside a sibling "Docs (Copy)" the duplicate of "Docs" is therefore "Docs (Copy 1)".
  (The description of a stored folder is within the schema's 500 characters.)
\<close>

theorem duplicate_folder_name:
  assumes "findFolder i (user_id u) (folderColl s) = Some orig"
    and "descriptionValid (description orig)"
  shows "\<exists>nm. nm \<notin> set (siblingNames (user_id u) (parentFolder orig) s) \<and>
           (if folder_name orig @ '' (Copy)'' \<notin> set (siblingNames (user_id u) (parentFolder orig) s)
            then nm = folder_name orig @ '' (Copy)''
            else \<exists>N\<ge>1. nm = folder_name orig @ '' (Copy '' @ toString N @ '')'' \<and>
                   (\<forall>M. 1 \<le> M \<and> M < N \<longrightarrow>
                      folder_name orig @ '' (Copy '' @ toString M @ '')''
                        \<in> set (siblingNames (user_id u) (parentFolder orig) s))) \<and>
           (if length nm \<le> 255
            then \<exists>d. duplicateFolder u i s =
                        (Inr d, s\<lparr>folderColl := folderColl s @ [d], nextId := Suc (nextId s)\<rparr>) \<and>
                      folder_name d = nm \<and> folder_owner d = user_id u \<and>
                      parentFolder d = parentFolder orig
            else duplicateFolder u i s = (Inl ServerError, s))"
proof -
  let ?taken = "siblingNames (user_id u) (parentFolder orig) s"
  let ?base = "folder_name orig"
  let ?name = "nextName ?taken ?base (?base @ '' (Copy)'') (Suc 0)"
  let ?path = "if parentFolder orig \<noteq> None
               then join_js ''/'' (butlast (split_js CHR ''/'' (folder_path orig))) @ ''/'' @ ?name
               else ?name"
  let ?d = "\<lparr> folder_id = nextId s, folder_name = ?name, description = description orig,
             folder_owner = user_id u, parentFolder = parentFolder orig, folder_path = ?path,
             isFavorite = False, color = color orig \<rparr>"
  have nm: "?name = (if ?base @ '' (Copy)'' \<in> set ?taken
                     then copyName ?base (firstFree ?taken ?base (Suc 0)) else ?base @ '' (Copy)'')"
    by (rule nextName_result)
  have free: "?name \<notin> set ?taken"
    using firstFree_props(2)[of ?base ?taken "Suc 0"] by (simp add: nm)
  have ne: "?name \<noteq> []"
    by (simp add: nm copyName_def)
  have pne: "?path \<noteq> []"
    using ne by (cases "parentFolder orig") simp_all
  have valid: "schemaValid ?d = (length ?name \<le> 255)"
    using assms(2) ne pne by (simp add: schemaValid_def nameValid_def Suc_le_eq)
  have shape: "if ?base @ '' (Copy)'' \<notin> set ?taken
            then ?name = ?base @ '' (Copy)''
            else \<exists>N\<ge>1. ?name = ?base @ '' (Copy '' @ toString N @ '')'' \<and>
                   (\<forall>M. 1 \<le> M \<and> M < N \<longrightarrow> ?base @ '' (Copy '' @ toString M @ '')'' \<in> set ?taken)"
  proof (cases "?base @ '' (Copy)'' \<notin> set ?taken")
    case True
    then show ?thesis by (simp add: nm)
  next
    case False
    let ?N = "firstFree ?taken ?base (Suc 0)"
    have a: "1 \<le> ?N" using firstFree_props(1)[of "Suc 0" ?taken ?base] by simp
    have b: "?name = ?base @ '' (Copy '' @ toString ?N @ '')''"
      using False by (simp add: nm copyName_def)
    have c: "\<forall>M. 1 \<le> M \<and> M < ?N \<longrightarrow> ?base @ '' (Copy '' @ toString M @ '')'' \<in> set ?taken"
      using firstFree_props(3)[of "Suc 0" _ ?taken ?base] by (simp add: copyName_def)
    have "\<exists>N\<ge>1. ?name = ?base @ '' (Copy '' @ toString N @ '')'' \<and>
                   (\<forall>M. 1 \<le> M \<and> M < N \<longrightarrow> ?base @ '' (Copy '' @ toString M @ '')'' \<in> set ?taken)"
      using a b c by (intro exI[of _ ?N] conjI)
    then show ?thesis using False by (simp only: if_False)
  qed
  have run: "duplicateFolder u i s =
               (if \<not> schemaValid ?d then (Inl ServerError, s)
                else (Inr ?d, s\<lparr>folderColl := folderColl s @ [?d], nextId := Suc (nextId s)\<rparr>))"
    using assms(1) by (simp add: duplicateFolder_def Let_def)
  have outcome: "if length ?name \<le> 255
            then \<exists>d. duplicateFolder u i s =
                        (Inr d, s\<lparr>folderColl := folderColl s @ [d], nextId := Suc (nextId s)\<rparr>) \<and>
                      folder_name d = ?name \<and> folder_owner d = user_id u \<and>
                      parentFolder d = parentFolder orig
            else duplicateFolder u i s = (Inl ServerError, s)"
  proof (cases "length ?name \<le> 255")
    case True
    then have "duplicateFolder u i s =
                 (Inr ?d, s\<lparr>folderColl := folderColl s @ [?d], nextId := Suc (nextId s)\<rparr>)"
      using run valid by simp
    then have "\<exists>d. duplicateFolder u i s =
                        (Inr d, s\<lparr>folderColl := folderColl s @ [d], nextId := Suc (nextId s)\<rparr>) \<and>
                      folder_name d = ?name \<and> folder_owner d = user_id u \<and>
                      parentFolder d = parentFolder orig"
      by (intro exI[of _ ?d]) simp
    then show ?thesis using True by (simp only: if_True)
  next
    case False
    then have "duplicateFolder u i s = (Inl ServerError, s)"
      using run valid by simp
    then show ?thesis using False by (simp only: if_False)
  qed
  show ?thesis
    by (rule exI[of _ ?name]) (intro conjI free shape outcome)
qed


theorem duplicate_folder_name_witness:
  "findFolder 0 (user_id scenarioUser)
      (folderColl (withFolders [mkFolder 0 ''Docs'' None ''Docs'',
                                mkFolder 1 ''Docs (Copy)'' None ''Docs (Copy)'']))
     = Some (mkFolder 0 ''Docs'' None ''Docs'') \<and>
   descriptionValid (description (mkFolder 0 ''Docs'' None ''Docs'')) \<and>
   (\<exists>d. fst (duplicateFolder scenarioUser 0
                (withFolders [mkFolder 0 ''Docs'' None ''Docs'',
                              mkFolder 1 ''Docs (Copy)'' None ''Docs (Copy)''])) = Inr d \<and>
        folder_name d = ''Docs (Copy 1)'' \<and> parentFolder d = None) \<and>
   findFolder 0 (user_id scenarioUser)
      (folderColl (withFolders [mkFolder 0 (replicate 250 CHR ''a'') None (replicate 250 CHR ''a'')]))
     = Some (mkFolder 0 (replicate 250 CHR ''a'') None (replicate 250 CHR ''a'')) \<and>
   duplicateFolder scenarioUser 0
      (withFolders [mkFolder 0 (replicate 250 CHR ''a'') None (replicate 250 CHR ''a'')])
     = (Inl ServerError,
        withFolders [mkFolder 0 (replicate 250 CHR ''a'') None (replicate 250 CHR ''a'')])"
proof -
  let ?docs = "mkFolder 0 ''Docs'' None ''Docs''"
  let ?s = "withFolders [?docs, mkFolder 1 ''Docs (Copy)'' None ''Docs (Copy)'']"
  let ?long = "mkFolder 0 (replicate 250 CHR ''a'') None (replicate 250 CHR ''a'')"
  let ?t = "withFolders [?long]"
  have h: "findFolder 0 (user_id scenarioUser) (folderColl ?s) = Some ?docs"
    by (simp add: findFolder_def fixture_defs)
  have v: "descriptionValid (description ?docs)"
    by (simp add: descriptionValid_def mkFolder_def)
  have pn: "parentFolder ?docs = None" and bn: "folder_name ?docs = ''Docs''"
    by (simp_all add: mkFolder_def)
  have sn: "siblingNames (user_id scenarioUser) None ?s = [''Docs'', ''Docs (Copy)'']"
    by (simp add: siblingNames_def fixture_defs)
  from duplicate_folder_name[OF h v] obtain nm where
    shape: "if folder_name ?docs @ '' (Copy)'' \<notin> set (siblingNames (user_id scenarioUser) (parentFolder ?docs) ?s)
            then nm = folder_name ?docs @ '' (Copy)''
            else \<exists>N\<ge>1. nm = folder_name ?docs @ '' (Copy '' @ toString N @ '')'' \<and>
                   (\<forall>M. 1 \<le> M \<and> M < N \<longrightarrow>
                      folder_name ?docs @ '' (Copy '' @ toString M @ '')''
                        \<in> set (siblingNames (user_id scenarioUser) (parentFolder ?docs) ?s))"
    and outcome: "if length nm \<le> 255
            then \<exists>d. duplicateFolder scenarioUser 0 ?s =
                        (Inr d, ?s\<lparr>folderColl := folderColl ?s @ [d], nextId := Suc (nextId ?s)\<rparr>) \<and>
                      folder_name d = nm \<and> folder_owner d = user_id scenarioUser \<and>
                      parentFolder d = parentFolder ?docs
            else duplicateFolder scenarioUser 0 ?s = (Inl ServerError, ?s)"
    by blast
  from shape obtain N where n1: "1 \<le> N" and nmN: "nm = ''Docs'' @ '' (Copy '' @ toString N @ '')''"
    and least: "\<forall>M. 1 \<le> M \<and> M < N \<longrightarrow> ''Docs'' @ '' (Copy '' @ toString M @ '')'' \<in> set [''Docs'', ''Docs (Copy)'']"
    unfolding pn bn sn by auto
  have "\<not> 1 < N"
  proof
    assume "1 < N"
    with least have "''Docs'' @ '' (Copy '' @ toString 1 @ '')'' \<in> set [''Docs'', ''Docs (Copy)'']"
      by simp
    then show False by (simp add: toString_1)
  qed
  with n1 have "N = Suc 0" by simp
  then have nm1: "nm = ''Docs (Copy 1)''" using nmN by (simp add: toString_1)
  then have "length nm \<le> 255" by simp
  with outcome obtain d where
    a: "duplicateFolder scenarioUser 0 ?s =
          (Inr d, ?s\<lparr>folderColl := folderColl ?s @ [d], nextId := Suc (nextId ?s)\<rparr>)"
    and b: "folder_name d = nm" and c: "parentFolder d = parentFolder ?docs"
    by auto
  have a': "fst (duplicateFolder scenarioUser 0 ?s) = Inr d" by (simp only: a fst_conv)
  have b': "folder_name d = ''Docs (Copy 1)''" using b nm1 by simp
  have c': "parentFolder d = None" using c unfolding pn .
  have first: "\<exists>d. fst (duplicateFolder scenarioUser 0 ?s) = Inr d \<and>
        folder_name d = ''Docs (Copy 1)'' \<and> parentFolder d = None"
    by (rule exI[of _ d]) (intro conjI a' b' c')
  have h2: "findFolder 0 (user_id scenarioUser) (folderColl ?t) = Some ?long"
    by (simp add: findFolder_def fixture_defs)
  have v2: "descriptionValid (description ?long)"
    by (simp add: descriptionValid_def mkFolder_def)
  have pn2: "parentFolder ?long = None" and bn2: "folder_name ?long = replicate 250 CHR ''a''"
    by (simp_all add: mkFolder_def)
  have sn2: "siblingNames (user_id scenarioUser) None ?t = [replicate 250 CHR ''a'']"
    by (simp add: siblingNames_def fixture_defs)
  from duplicate_folder_name[OF h2 v2] obtain nm2 where
    shape2: "if folder_name ?long @ '' (Copy)'' \<notin> set (siblingNames (user_id scenarioUser) (parentFolder ?long) ?t)
            then nm2 = folder_name ?long @ '' (Copy)''
            else \<exists>N\<ge>1. nm2 = folder_name ?long @ '' (Copy '' @ toString N @ '')'' \<and>
                   (\<forall>M. 1 \<le> M \<and> M < N \<longrightarrow>
                      folder_name ?long @ '' (Copy '' @ toString M @ '')''
                        \<in> set (siblingNames (user_id scenarioUser) (parentFolder ?long) ?t))"
    and outcome2: "if length nm2 \<le> 255
            then \<exists>d. duplicateFolder scenarioUser 0 ?t =
                        (Inr d, ?t\<lparr>folderColl := folderColl ?t @ [d], nextId := Suc (nextId ?t)\<rparr>) \<and>
                      folder_name d = nm2 \<and> folder_owner d = user_id scenarioUser \<and>
                      parentFolder d = parentFolder ?long
            else duplicateFolder scenarioUser 0 ?t = (Inl ServerError, ?t)"
    by blast
  have "nm2 = replicate 250 CHR ''a'' @ '' (Copy)''"
    using shape2 unfolding pn2 bn2 sn2 by simp
  then have "\<not> length nm2 \<le> 255" by simp
  with outcome2 have second: "duplicateFolder scenarioUser 0 ?t = (Inl ServerError, ?t)"
    by simp
  from h v first h2 second show ?thesis by (intro conjI)
qed

section \<open>Updates that keep the name\<close>

text \<open>
  C10.  When no name is supplied, or the supplied name is the folder's current name, an
  update of a folder that was found changes at most the \<open>description\<close>, \<open>color\<close> and
  \<open>isFavorite\<close> fields of that folder: the paths, parent references and names of all
  folders are as before, and so is the rest of the store.  The identifiers of the
  collection are pairwise different, as the store guarantees.
\<close>

theorem metadata_update_frame:
  assumes found: "findFolder i (user_id u) (folderColl s) = Some folder"
    and nm: "name = None \<or> name = Some (folder_name folder)"
    and dist: "distinct (map folder_id (folderColl s))"
  shows "\<exists>r d' c' f' s'.
           updateFolder u i name descr col fav s = Some (r, s') \<and>
           s' = s\<lparr>folderColl := map (\<lambda>g. if folder_id g = i
                                           then folder\<lparr>description := d', color := c', isFavorite := f'\<rparr>
                                           else g) (folderColl s)\<rparr> \<and>
           map folder_path (folderColl s') = map folder_path (folderColl s) \<and>
           map parentFolder (folderColl s') = map parentFolder (folderColl s) \<and>
           map folder_name (folderColl s') = map folder_name (folderColl s)"
proof -
  from findFolder_Some[OF found] have mem: "folder \<in> set (folderColl s)" and fid: "folder_id folder = i"
    by blast+
  have frame: "map folder_path (map (\<lambda>g. if folder_id g = i
                     then folder\<lparr>description := d', color := c', isFavorite := f'\<rparr> else g) (folderColl s))
                 = map folder_path (folderColl s) \<and>
               map parentFolder (map (\<lambda>g. if folder_id g = i
                     then folder\<lparr>description := d', color := c', isFavorite := f'\<rparr> else g) (folderColl s))
                 = map parentFolder (folderColl s) \<and>
               map folder_name (map (\<lambda>g. if folder_id g = i
                     then folder\<lparr>description := d', color := c', isFavorite := f'\<rparr> else g) (folderColl s))
                 = map folder_name (folderColl s)" for d' c' f'
    using distinct_id_unique[OF dist mem] fid by (auto simp: o_def)
  have skip: "(truthy name \<and> the name \<noteq> folder_name folder) = False"
    using nm by (auto simp: truthy_def)
  have keep: "(if truthy name then the name else folder_name folder) = folder_name folder"
    using nm by (auto simp: truthy_def)
  show ?thesis
  proof (cases "(case name of None \<Rightarrow> True | Some n \<Rightarrow> nameValid n) \<and> descriptionValid descr")
    case False
    then have r: "updateFolder u i name descr col fav s = Some (Inl ValidationFailed, s)"
      by (simp add: updateFolder_def)
    have same: "s = s\<lparr>folderColl := map (\<lambda>g. if folder_id g = i
                 then folder\<lparr>description := description folder, color := color folder,
                              isFavorite := isFavorite folder\<rparr> else g) (folderColl s)\<rparr>"
    proof -
      have triv: "folder\<lparr>description := description folder, color := color folder,
                              isFavorite := isFavorite folder\<rparr> = folder"
        by (cases folder) simp
      show ?thesis using saveFolder_same[OF dist mem] fid by (simp add: triv cong: if_cong)
    qed
    show ?thesis
      using r same frame[where d'="description folder" and c'="color folder" and f'="isFavorite folder"]
      by (intro exI[of _ "Inl ValidationFailed"] exI[of _ "description folder"]
            exI[of _ "color folder"] exI[of _ "isFavorite folder"] exI[of _ s]) simp
  next
    case True
    let ?d = "case descr of None \<Rightarrow> description folder | Some d \<Rightarrow> Some d"
    let ?c = "if truthy col then the col else color folder"
    let ?f = "case fav of None \<Rightarrow> isFavorite folder | Some b \<Rightarrow> b"
    let ?folder' = "folder\<lparr>description := ?d, color := ?c, isFavorite := ?f\<rparr>"
    have uf: "updateFields name descr col fav folder = ?folder'"
      by (simp add: updateFields_def keep)
    have r: "updateFolder u i name descr col fav s =
               Some (Inr ?folder', s\<lparr>folderColl := map (\<lambda>g. if folder_id g = i then ?folder' else g) (folderColl s)\<rparr>)"
    proof -
      have v: "(\<not> ((case name of None \<Rightarrow> True | Some n \<Rightarrow> nameValid n) \<and> descriptionValid descr)) = False"
        using True by simp
      have fid': "folder_id ?folder' = i" using fid by simp
      show ?thesis
        unfolding updateFolder_def
        by (simp only: v skip found if_False option.case Let_def uf saveFolder_def fid')
    qed
    show ?thesis
      using r frame[where d'="?d" and c'="?c" and f'="?f"]
      by (intro exI[of _ "Inr ?folder'"] exI[of _ ?d] exI[of _ ?c] exI[of _ ?f]
            exI[of _ "s\<lparr>folderColl := map (\<lambda>g. if folder_id g = i then ?folder' else g) (folderColl s)\<rparr>"]) simp
  qed
qed

theorem metadata_update_frame_witness:
  "findFolder 0 (user_id scenarioUser)
      (folderColl (withFolders [mkFolder 0 ''A'' None ''A'', mkFolder 1 ''B'' (Some 0) ''A/B'']))
     = Some (mkFolder 0 ''A'' None ''A'') \<and>
   distinct (map folder_id
      (folderColl (withFolders [mkFolder 0 ''A'' None ''A'', mkFolder 1 ''B'' (Some 0) ''A/B'']))) \<and>
   (\<exists>r s'. updateFolder scenarioUser 0 None (Some ''holiday'') (Some ''#FF0000'') (Some True)
               (withFolders [mkFolder 0 ''A'' None ''A'', mkFolder 1 ''B'' (Some 0) ''A/B''])
             = Some (r, s') \<and>
           map folder_path (folderColl s') = [''A'', ''A/B''] \<and>
           map parentFolder (folderColl s') = [None, Some 0])"
proof -
  let ?s = "withFolders [mkFolder 0 ''A'' None ''A'', mkFolder 1 ''B'' (Some 0) ''A/B'']"
  have h1: "findFolder 0 (user_id scenarioUser) (folderColl ?s) = Some (mkFolder 0 ''A'' None ''A'')"
    by (simp add: findFolder_def withFolders_def mkFolder_def scenarioUser_def emptyStore_def)
  have h2: "None = None \<or> None = Some (folder_name (mkFolder 0 ''A'' None ''A''))" by simp
  have h3: "distinct (map folder_id (folderColl ?s))"
    by (simp add: withFolders_def mkFolder_def emptyStore_def)
  have p: "map folder_path (folderColl ?s) = [''A'', ''A/B'']"
    and q: "map parentFolder (folderColl ?s) = [None, Some 0]"
    by (simp_all add: withFolders_def mkFolder_def emptyStore_def)
  from metadata_update_frame[OF h1 h2 h3, of "Some ''holiday''" "Some ''#FF0000''" "Some True"]
  obtain r s' where
    a: "updateFolder scenarioUser 0 None (Some ''holiday'') (Some ''#FF0000'') (Some True) ?s = Some (r, s')"
    and b: "map folder_path (folderColl s') = map folder_path (folderColl ?s)"
    and c: "map parentFolder (folderColl s') = map parentFolder (folderColl ?s)"
    by blast
  have b': "map folder_path (folderColl s') = [''A'', ''A/B'']" using b unfolding p .
  have c': "map parentFolder (folderColl s') = [None, Some 0]" using c unfolding q .
  have "\<exists>r s'. updateFolder scenarioUser 0 None (Some ''holiday'') (Some ''#FF0000'') (Some True) ?s
                 = Some (r, s') \<and>
               map folder_path (folderColl s') = [''A'', ''A/B''] \<and>
               map parentFolder (folderColl s') = [None, Some 0]"
    by (rule exI[of _ r], rule exI[of _ s']) (intro conjI a b' c')
  with h1 h3 show ?thesis by (intro conjI)
qed

end
